theory Spec2Isabelle
  imports Complex_Main "HOL-Library.Char_ord" "HOL-Library.List_Lexorder"
begin

section \<open>Data model\<close>

text \<open>
  The two notebooks (\<open>evaluate.ipynb\<close>, \<open>finetune.ipynb\<close>) read a dataset that is a JSON
  object with three mappings. A Python \<open>dict\<close> keeps its insertion order, and the code
  both iterates (\<open>.items()\<close>) and indexes (\<open>d[k]\<close>), so a dict is an association list
  in iteration order: \<open>.items()\<close> is the list itself, \<open>d[k]\<close> is \<open>map_of\<close> with a
  \<open>KeyError\<close> for a missing key. The keys of a dict are distinct; the results below
  do not depend on it.
\<close>

type_synonym ('k, 'v) dict = "('k \<times> 'v) list"

record dataset =
  corpus :: "(string, string) dict"
  queries :: "(string, string) dict"
  relevant_docs :: "(string, string list) dict"

text \<open>The exceptions the modelled statements can raise.\<close>

datatype py_error = KeyError string | IndexError | ValueError

text \<open>\<open>TextNode(id_=id_, text=text)\<close>; \<open>node.node.node_id\<close> reads the identifier back.\<close>

record text_node =
  node_id :: string
  node_text :: string

text \<open>The dictionary \<open>eval_result\<close> that \<open>evaluate\<close> appends for every query.\<close>

record eval_result =
  is_hit :: bool
  retrieved :: "string list"
  expected :: string
  query :: string

text \<open>\<open>InputExample(texts=[query, text])\<close> of the fine-tuning notebook.\<close>

record input_example =
  texts :: "string list"

text \<open>
  A floating-point result of pandas: a number or NaN. Numbers are kept exact (rationals);
  the rounding of the one final division is not modelled.
\<close>

datatype float_val = NaN | Num rat

section \<open>Python primitives\<close>

text \<open>\<open>d[k]\<close> on a dict.\<close>

definition getitem :: "(string, 'v) dict \<Rightarrow> string \<Rightarrow> py_error + 'v" where
  "getitem d k = (case map_of d k of None \<Rightarrow> Inl (KeyError k) | Some v \<Rightarrow> Inr v)"

text \<open>\<open>xs[0]\<close> on a list.\<close>

definition index0 :: "'a list \<Rightarrow> py_error + 'a" where
  "index0 xs = (case xs of [] \<Rightarrow> Inl IndexError | x # _ \<Rightarrow> Inr x)"

section \<open>The hit-rate evaluator (\<open>evaluate.ipynb\<close>)\<close>

text \<open>
  The body of \<open>for query_id, query in tqdm(queries.items())\<close>, with \<open>eval_results\<close> as the
  accumulator. \<open>retriever\<close> stands for \<open>retriever.retrieve\<close>; an exception leaves the
  function, so no list is returned then.
\<close>

fun eval_loop ::
  "(string \<Rightarrow> text_node list) \<Rightarrow> (string, string list) dict \<Rightarrow> (string \<times> string) list
    \<Rightarrow> eval_result list \<Rightarrow> py_error + eval_result list" where
  "eval_loop retriever rel [] eval_results = Inr eval_results"
| "eval_loop retriever rel ((query_id, q) # rest) eval_results =
     (let retrieved_nodes = retriever q;
          retrieved_ids = map node_id retrieved_nodes
      in case getitem rel query_id of
           Inl e \<Rightarrow> Inl e
         | Inr ds \<Rightarrow>
            (case index0 ds of
               Inl e \<Rightarrow> Inl e
             | Inr expected_id \<Rightarrow>
                 eval_loop retriever rel rest
                   (eval_results @
                     [\<lparr>is_hit = expected_id \<in> set retrieved_ids,
                       retrieved = retrieved_ids,
                       expected = expected_id,
                       query = query_id\<rparr>])))"

text \<open>
  \<open>evaluate(dataset, embed_model, top_k=5, verbose=False)\<close>. The retrieval library
  (\<open>ServiceContext\<close>, \<open>VectorStoreIndex\<close>, \<open>as_retriever\<close>, \<open>retrieve\<close>) is not part of the
  repository; it is the parameter \<open>lib\<close>, which maps the embedding model, the nodes of
  the index, \<open>similarity_top_k\<close> and the query text to the retrieved nodes. \<open>verbose\<close> is
  accepted and never read, as in the source.
\<close>

definition nodes_of :: "(string, string) dict \<Rightarrow> text_node list" where
  "nodes_of c = map (\<lambda>(i, t). \<lparr>node_id = i, node_text = t\<rparr>) c"

definition evaluate ::
  "('e \<Rightarrow> text_node list \<Rightarrow> nat \<Rightarrow> string \<Rightarrow> text_node list) \<Rightarrow> dataset \<Rightarrow> 'e \<Rightarrow> nat \<Rightarrow> bool
    \<Rightarrow> py_error + eval_result list" where
  "evaluate lib ds embed_model top_k verbose =
     (let nodes = nodes_of (corpus ds);
          retriever = lib embed_model nodes top_k
      in eval_loop retriever (relevant_docs ds) (queries ds) [])"

definition evaluate_default ::
  "('e \<Rightarrow> text_node list \<Rightarrow> nat \<Rightarrow> string \<Rightarrow> text_node list) \<Rightarrow> dataset \<Rightarrow> 'e
    \<Rightarrow> py_error + eval_result list" where
  "evaluate_default lib ds embed_model = evaluate lib ds embed_model 5 False"

text \<open>
  Modelled from the spec: the retrieval library is an external collaborator whose code is
  not in the repository. The spec describes it as: embed every corpus document once,
  embed the query text, and retrieve the k corpus identifiers whose embeddings are
  nearest under the index's similarity metric. The metric \<open>sim\<close> and its value type are
  left open (any linear order); the ranking is by decreasing similarity, and the first
  \<open>k\<close> nodes of the ranking are returned. The ranking does not depend on \<open>k\<close>.
\<close>

definition ranking :: "('v \<Rightarrow> 'v \<Rightarrow> 's::linorder) \<Rightarrow> (string \<Rightarrow> 'v) \<Rightarrow> text_node list \<Rightarrow> string
    \<Rightarrow> text_node list" where
  "ranking sim emb nodes q = rev (sort_key (\<lambda>n. sim (emb q) (emb (node_text n))) nodes)"

text \<open>
  Modelled from the spec: \<open>index.as_retriever(similarity_top_k=k).retrieve(query)\<close>, the
  \<open>k\<close> nearest nodes of the index (all of them when the index holds fewer than \<open>k\<close>).
\<close>

definition nearest_k :: "('v \<Rightarrow> 'v \<Rightarrow> 's::linorder) \<Rightarrow> (string \<Rightarrow> 'v) \<Rightarrow> text_node list \<Rightarrow> nat
    \<Rightarrow> string \<Rightarrow> text_node list" where
  "nearest_k sim emb nodes k q = take k (ranking sim emb nodes q)"

section \<open>The result aggregator (\<open>evaluate.ipynb\<close>)\<close>

text \<open>
  \<open>df = pd.DataFrame(results)\<close> followed by \<open>df['is_hit']\<close>: the frame's columns are the
  keys of the records, so a frame built from no record has no column and the column
  lookup raises \<open>KeyError\<close>.
\<close>

definition column_is_hit :: "eval_result list \<Rightarrow> py_error + bool list" where
  "column_is_hit df = (if df = [] then Inl (KeyError ''is_hit'') else Inr (map is_hit df))"

text \<open>\<open>Series.mean()\<close> of a boolean column: the sum of the flags over their number.\<close>

definition series_mean :: "bool list \<Rightarrow> float_val" where
  "series_mean xs =
     (if xs = [] then NaN else Num (sum_list (map of_bool xs) / of_nat (length xs)))"

text \<open>\<open>hit_rate = pd.DataFrame(results)['is_hit'].mean()\<close>.\<close>

definition hit_rate :: "eval_result list \<Rightarrow> py_error + float_val" where
  "hit_rate results =
     (case column_is_hit results of Inl e \<Rightarrow> Inl e | Inr col \<Rightarrow> Inr (series_mean col))"

text \<open>
  The hit rate in the spec's words: the count of records with hit flag true over the
  total record count.
\<close>

definition hit_ratio_spec :: "eval_result list \<Rightarrow> rat" where
  "hit_ratio_spec results = of_nat (length (filter is_hit results)) / of_nat (length results)"

text \<open>
  The summary cells work on labelled frames. What decides their outcome, beside the
  rows, is the dtype of the \<open>is_hit\<close> column: \<open>pd.DataFrame(results)\<close> has a \<open>bool\<close>
  column when there are records (the flags are Python booleans) and no column at all
  when there are none.
\<close>

datatype col_dtype = BoolDtype | ObjectDtype | NoColumn

record labelled_frame =
  frame_rows :: "(string \<times> eval_result) list"
  is_hit_dtype :: col_dtype

text \<open>
  \<open>df = pd.DataFrame(results); df['model'] = label\<close>: the label is added to every row.
  On a frame built from no records this gives a frame whose only column is \<open>model\<close>.
\<close>

definition set_model :: "string \<Rightarrow> eval_result list \<Rightarrow> labelled_frame" where
  "set_model label df =
     \<lparr>frame_rows = map (Pair label) df,
      is_hit_dtype = (if df = [] then NoColumn else BoolDtype)\<rparr>"

text \<open>
  The dtype of \<open>is_hit\<close> after \<open>pd.concat\<close>: \<open>bool\<close> when every frame has the column,
  absent when none has it. When only some frames have it, the others are filled in
  with missing values, which a \<open>bool\<close> column cannot hold: the column becomes \<open>object\<close>.
\<close>

definition concat_dtype :: "col_dtype list \<Rightarrow> col_dtype" where
  "concat_dtype ds =
     (if list_all (\<lambda>d. d = BoolDtype) ds then BoolDtype
      else if list_all (\<lambda>d. d = NoColumn) ds then NoColumn
      else ObjectDtype)"

text \<open>\<open>pd.concat(dfs)\<close> appends the rows; on an empty list it raises \<open>ValueError\<close>.\<close>

definition pd_concat :: "labelled_frame list \<Rightarrow> py_error + labelled_frame" where
  "pd_concat dfs =
     (if dfs = [] then Inl ValueError
      else Inr \<lparr>frame_rows = concat (map frame_rows dfs),
                is_hit_dtype = concat_dtype (map is_hit_dtype dfs)\<rparr>)"

text \<open>
  \<open>df.groupby('model').mean('is_hit')\<close>: one row per label that occurs, in sorted label
  order. The argument \<open>'is_hit'\<close> lands in the parameter \<open>numeric_only\<close> and counts as
  true there, so only numeric columns (\<open>bool\<close> included) are averaged: the row of a label
  holds the mean of that label's \<open>is_hit\<close> when the column is \<open>bool\<close>, and no scalar
  (\<open>None\<close>) when the column is \<open>object\<close> or absent.
\<close>

definition groupby_model_mean :: "labelled_frame \<Rightarrow> (string \<times> float_val option) list" where
  "groupby_model_mean df =
     map (\<lambda>l. (l, if is_hit_dtype df = BoolDtype
                   then Some (series_mean
                          (map (is_hit \<circ> snd) (filter (\<lambda>row. fst row = l) (frame_rows df))))
                   else None))
       (sort (remdups (map fst (frame_rows df))))"

text \<open>\<open>df_all = pd.concat([df_ada, df_bge, df_finetuned])\<close>, each frame with its label.\<close>

definition df_all ::
  "eval_result list \<Rightarrow> eval_result list \<Rightarrow> eval_result list \<Rightarrow> py_error + labelled_frame" where
  "df_all df_ada df_bge df_finetuned =
     pd_concat [set_model ''ada'' df_ada, set_model ''bge'' df_bge,
                set_model ''fine_tuned'' df_finetuned]"

text \<open>The summary table: \<open>df_all.groupby('model').mean('is_hit')\<close>.\<close>

definition hit_rate_summary ::
  "eval_result list \<Rightarrow> eval_result list \<Rightarrow> eval_result list
    \<Rightarrow> py_error + (string \<times> float_val option) list" where
  "hit_rate_summary df_ada df_bge df_finetuned =
     (case df_all df_ada df_bge df_finetuned of
        Inl e \<Rightarrow> Inl e
      | Inr df \<Rightarrow> Inr (groupby_model_mean df))"

section \<open>Training pairs (\<open>finetune.ipynb\<close>)\<close>

text \<open>
  The cell that builds \<open>examples\<close> is top-level code: \<open>examples\<close> is a notebook variable
  that keeps what was appended before an exception. The loop returns the final value of
  \<open>examples\<close> together with the exception that stopped the cell, if any.
\<close>

fun examples_loop ::
  "(string, string) dict \<Rightarrow> (string, string list) dict \<Rightarrow> (string \<times> string) list
    \<Rightarrow> input_example list \<Rightarrow> input_example list \<times> py_error option" where
  "examples_loop corp rel [] examples = (examples, None)"
| "examples_loop corp rel ((query_id, q) # rest) examples =
     (case getitem rel query_id of
        Inl e \<Rightarrow> (examples, Some e)
      | Inr ds \<Rightarrow>
         (case index0 ds of
            Inl e \<Rightarrow> (examples, Some e)
          | Inr nid \<Rightarrow>
             (case getitem corp nid of
                Inl e \<Rightarrow> (examples, Some e)
              | Inr txt \<Rightarrow> examples_loop corp rel rest (examples @ [\<lparr>texts = [q, txt]\<rparr>]))))"

definition build_examples :: "dataset \<Rightarrow> input_example list \<times> py_error option" where
  "build_examples ds = examples_loop (corpus ds) (relevant_docs ds) (queries ds) []"

section \<open>Well-formedness\<close>

text \<open>Every query has a ground truth: a non-empty \<open>relevant_docs\<close> entry.\<close>

definition has_truth :: "(string, string list) dict \<Rightarrow> string \<Rightarrow> bool" where
  "has_truth rel query_id = (case map_of rel query_id of Some (d # _) \<Rightarrow> True | _ \<Rightarrow> False)"

text \<open>The ground truth of a query whose entry is non-empty (the empty string otherwise).\<close>

definition truth :: "(string, string list) dict \<Rightarrow> string \<Rightarrow> string" where
  "truth rel query_id = (case map_of rel query_id of Some (d # _) \<Rightarrow> d | _ \<Rightarrow> [])"

text \<open>
  The query's first relevant identifier names a corpus document, and the text stored
  under it (the empty string when there is none).
\<close>

definition has_doc :: "(string, string) dict \<Rightarrow> (string, string list) dict \<Rightarrow> string \<Rightarrow> bool" where
  "has_doc corp rel query_id =
     (case map_of rel query_id of
        Some (d # _) \<Rightarrow> (case map_of corp d of Some _ \<Rightarrow> True | None \<Rightarrow> False)
      | _ \<Rightarrow> False)"

definition doc_text :: "(string, string) dict \<Rightarrow> (string, string list) dict \<Rightarrow> string \<Rightarrow> string" where
  "doc_text corp rel query_id = (case map_of corp (truth rel query_id) of Some t \<Rightarrow> t | None \<Rightarrow> [])"

text \<open>The \<open>relevant_docs\<close> mapping with every sequence cut down to its first element.\<close>

definition first_only :: "(string, string list) dict \<Rightarrow> (string, string list) dict" where
  "first_only rel = map (\<lambda>(k, ds). (k, take 1 ds)) rel"

section \<open>Test inputs\<close>

text \<open>
  A toy embedding provider for concrete runs: a text is embedded as its length, and two
  embeddings are the more similar the closer they are.
\<close>

definition toy_emb :: "string \<Rightarrow> int" where
  "toy_emb t = int (length t)"

definition toy_sim :: "int \<Rightarrow> int \<Rightarrow> int" where
  "toy_sim a b = - \<bar>a - b\<bar>"

text \<open>Two documents, two queries, each query with one relevant document.\<close>

definition pets_ds :: dataset where
  "pets_ds = \<lparr>corpus = [(''d1'', ''cats''), (''d2'', ''stock market'')],
              queries = [(''q1'', ''cat''), (''q2'', ''stock markets'')],
              relevant_docs = [(''q1'', [''d1'']), (''q2'', [''d2'', ''d1''])]\<rparr>"

text \<open>The same dataset with the ground truth of \<open>q2\<close> left out.\<close>

definition orphan_ds :: dataset where
  "orphan_ds = pets_ds\<lparr>relevant_docs := [(''q1'', [''d1''])]\<rparr>"

text \<open>The same dataset whose second query names a document that the corpus lacks.\<close>

definition stray_ds :: dataset where
  "stray_ds = pets_ds\<lparr>relevant_docs := [(''q1'', [''d1'']), (''q2'', [''d3''])]\<rparr>"

text \<open>
  The same dataset where the first query's relevant document is the second-nearest one.
\<close>

definition cross_ds :: dataset where
  "cross_ds = pets_ds\<lparr>relevant_docs := [(''q1'', [''d2'']), (''q2'', [''d2''])]\<rparr>"

text \<open>
  The same dataset where every query lists two relevant documents; the one retrieved
  first for \<open>q1\<close> is listed second.
\<close>

definition multi_ds :: dataset where
  "multi_ds = pets_ds\<lparr>relevant_docs := [(''q1'', [''d2'', ''d1'']), (''q2'', [''d2'', ''d1''])]\<rparr>"

text \<open>Two result records, a hit and a miss.\<close>

definition hit_rec :: eval_result where
  "hit_rec = \<lparr>is_hit = True, retrieved = [''d1''], expected = ''d1'', query = ''q1''\<rparr>"

definition miss_rec :: eval_result where
  "miss_rec = \<lparr>is_hit = False, retrieved = [''d1''], expected = ''d2'', query = ''q2''\<rparr>"

section \<open>Auxiliary facts\<close>

lemma has_truth_iff: "has_truth rel k \<longleftrightarrow> (\<exists>d rest. map_of rel k = Some (d # rest))"
  by (auto simp: has_truth_def split: option.splits list.splits)

lemma has_truth_getitem:
  "has_truth rel k \<Longrightarrow> \<exists>rest. getitem rel k = Inr (truth rel k # rest)"
  by (auto simp: has_truth_def truth_def getitem_def split: option.splits list.splits)

lemma first_failure:
  assumes "\<exists>x\<in>set qs. \<not> P x"
  shows "\<exists>pre x post. qs = pre @ x # post \<and> (\<forall>y\<in>set pre. P y) \<and> \<not> P x"
  using split_list_first_prop[OF assms] by blast

subsection \<open>The evaluation loop in closed form\<close>

lemma eval_loop_ok:
  "\<forall>x\<in>set qs. has_truth rel (fst x) \<Longrightarrow>
   eval_loop R rel qs acc =
     Inr (acc @ map (\<lambda>(k, q). \<lparr>is_hit = truth rel k \<in> set (map node_id (R q)),
                             retrieved = map node_id (R q), expected = truth rel k, query = k\<rparr>) qs)"
proof (induction qs arbitrary: acc)
  case Nil
  then show ?case by simp
next
  case (Cons x qs)
  obtain k q where x: "x = (k, q)" by (cases x)
  from Cons.prems x have "has_truth rel k" by simp
  then obtain rest where g: "getitem rel k = Inr (truth rel k # rest)"
    using has_truth_getitem by blast
  from Cons.prems have "\<forall>x\<in>set qs. has_truth rel (fst x)" by simp
  from Cons.IH[OF this] show ?case
    by (simp add: x g index0_def Let_def)
qed

lemma eval_loop_stops:
  "\<forall>x\<in>set pre. has_truth rel (fst x) \<Longrightarrow> \<not> has_truth rel k \<Longrightarrow>
   eval_loop R rel (pre @ (k, q) # post) acc =
     Inl (if map_of rel k = None then KeyError k else IndexError)"
proof (induction pre arbitrary: acc)
  case Nil
  then show ?case
    by (auto simp: has_truth_def getitem_def index0_def split: option.splits list.splits)
next
  case (Cons x pre)
  obtain k' q' where x: "x = (k', q')" by (cases x)
  from Cons.prems x have "has_truth rel k'" by simp
  then obtain rest where g: "getitem rel k' = Inr (truth rel k' # rest)"
    using has_truth_getitem by blast
  from Cons.prems have "\<forall>x\<in>set pre. has_truth rel (fst x)" by simp
  from Cons.IH[OF this Cons.prems(2)] show ?case
    by (simp add: x g index0_def Let_def)
qed

lemma eval_loop_Inr_has_truth:
  assumes "eval_loop R rel qs acc = Inr rs"
  shows "\<forall>x\<in>set qs. has_truth rel (fst x)"
proof (rule ccontr)
  assume "\<not> ?thesis"
  then have "\<exists>x\<in>set qs. \<not> has_truth rel (fst x)" by simp
  from first_failure[OF this] obtain pre x post where
    qs: "qs = pre @ x # post" and pre: "\<forall>y\<in>set pre. has_truth rel (fst y)"
    and x: "\<not> has_truth rel (fst x)"
    by blast
  obtain k q where xk: "x = (k, q)" by (cases x)
  from eval_loop_stops[OF pre, of k R q post acc] x xk qs assms show False by simp
qed

lemma evaluate_closed_form:
  assumes "evaluate lib ds em k v = Inr rs"
  shows "rs = map (\<lambda>(qid, q).
            \<lparr>is_hit = truth (relevant_docs ds) qid \<in> set (map node_id (lib em (nodes_of (corpus ds)) k q)),
             retrieved = map node_id (lib em (nodes_of (corpus ds)) k q),
             expected = truth (relevant_docs ds) qid, query = qid\<rparr>) (queries ds)"
proof -
  from assms have e: "eval_loop (lib em (nodes_of (corpus ds)) k) (relevant_docs ds) (queries ds) [] = Inr rs"
    by (simp add: evaluate_def Let_def)
  from eval_loop_Inr_has_truth[OF e] eval_loop_ok[of "queries ds" "relevant_docs ds" "lib em (nodes_of (corpus ds)) k" "[]"] e
  show ?thesis by simp
qed

lemma evaluate_succeeds:
  assumes "\<forall>x\<in>set (queries ds). has_truth (relevant_docs ds) (fst x)"
  shows "\<exists>rs. evaluate lib ds em k v = Inr rs"
  using eval_loop_ok[OF assms] by (simp add: evaluate_def Let_def)

subsection \<open>Only the first relevant identifier is read\<close>

lemma map_of_first_only: "map_of (first_only rel) k = map_option (take 1) (map_of rel k)"
  by (simp add: first_only_def map_of_map)

lemma eval_loop_first_only:
  "eval_loop R (first_only rel) qs acc = eval_loop R rel qs acc"
proof (induction qs arbitrary: acc)
  case Nil
  then show ?case by simp
next
  case (Cons x qs)
  obtain k q where x: "x = (k, q)" by (cases x)
  show ?case
    by (simp add: x Cons.IH Let_def getitem_def index0_def map_of_first_only
        split: option.splits list.splits)
qed

lemma examples_loop_first_only:
  "examples_loop corp (first_only rel) qs acc = examples_loop corp rel qs acc"
proof (induction qs arbitrary: acc)
  case Nil
  then show ?case by simp
next
  case (Cons x qs)
  obtain k q where x: "x = (k, q)" by (cases x)
  show ?case
    by (simp add: x Cons.IH getitem_def index0_def map_of_first_only
        split: option.splits list.splits)
qed

subsection \<open>The training-pair loop in closed form\<close>

lemma has_doc_getitem:
  "has_doc corp rel k \<Longrightarrow>
   \<exists>rest. getitem rel k = Inr (truth rel k # rest) \<and>
          getitem corp (truth rel k) = Inr (doc_text corp rel k)"
  by (auto simp: has_doc_def truth_def doc_text_def getitem_def split: option.splits list.splits)

lemma examples_loop_ok:
  "\<forall>x\<in>set qs. has_doc corp rel (fst x) \<Longrightarrow>
   examples_loop corp rel qs acc =
     (acc @ map (\<lambda>(k, q). \<lparr>texts = [q, doc_text corp rel k]\<rparr>) qs, None)"
proof (induction qs arbitrary: acc)
  case Nil
  then show ?case by simp
next
  case (Cons x qs)
  obtain k q where x: "x = (k, q)" by (cases x)
  from Cons.prems x have "has_doc corp rel k" by simp
  then obtain rest where g: "getitem rel k = Inr (truth rel k # rest)"
    and c: "getitem corp (truth rel k) = Inr (doc_text corp rel k)"
    using has_doc_getitem by blast
  from Cons.prems have "\<forall>x\<in>set qs. has_doc corp rel (fst x)" by simp
  from Cons.IH[OF this] show ?case
    by (simp add: x g c index0_def)
qed

lemma examples_loop_stops:
  "\<forall>x\<in>set pre. has_doc corp rel (fst x) \<Longrightarrow> \<not> has_doc corp rel k \<Longrightarrow>
   examples_loop corp rel (pre @ (k, q) # post) acc =
     (acc @ map (\<lambda>(k, q). \<lparr>texts = [q, doc_text corp rel k]\<rparr>) pre,
      Some (case map_of rel k of None \<Rightarrow> KeyError k | Some [] \<Rightarrow> IndexError
            | Some (d # _) \<Rightarrow> KeyError d))"
proof (induction pre arbitrary: acc)
  case Nil
  then show ?case
    by (auto simp: has_doc_def getitem_def index0_def split: option.splits list.splits)
next
  case (Cons x pre)
  obtain k' q' where x: "x = (k', q')" by (cases x)
  from Cons.prems x have "has_doc corp rel k'" by simp
  then obtain rest where g: "getitem rel k' = Inr (truth rel k' # rest)"
    and c: "getitem corp (truth rel k') = Inr (doc_text corp rel k')"
    using has_doc_getitem by blast
  from Cons.prems have "\<forall>x\<in>set pre. has_doc corp rel (fst x)" by simp
  from Cons.IH[OF this Cons.prems(2)] show ?case
    by (simp add: x g c index0_def)
qed

subsection \<open>Aggregation\<close>

lemma sum_of_bool_filter:
  "sum_list (map (of_bool \<circ> P) xs) = (of_nat (length (filter P xs)) :: rat)"
  by (induction xs) auto

lemma series_mean_is_hit:
  "rs \<noteq> [] \<Longrightarrow> series_mean (map is_hit rs) = Num (hit_ratio_spec rs)"
  using sum_of_bool_filter[of is_hit rs] by (simp add: series_mean_def hit_ratio_spec_def comp_def)

lemma hit_rate_nonempty: "rs \<noteq> [] \<Longrightarrow> hit_rate rs = Inr (series_mean (map is_hit rs))"
  by (simp add: hit_rate_def column_is_hit_def)

lemma filter_label_rows:
  "filter (\<lambda>row. fst row = l) (map (Pair l') df) = (if l = l' then map (Pair l') df else [])"
  by (auto simp: filter_empty_conv)

lemma labels_of_rows: "df \<noteq> [] \<Longrightarrow> set (map fst (map (Pair l) df)) = {l}"
  by (cases df) (auto simp: comp_def)

lemma df_all_labels:
  assumes "ada \<noteq> []" "bge \<noteq> []" "ft \<noteq> []"
  shows "sort (remdups (map fst (map (Pair ''ada'') ada @ map (Pair ''bge'') bge
           @ map (Pair ''fine_tuned'') ft))) = [''ada'', ''bge'', ''fine_tuned'']"
proof -
  have "set (map fst (map (Pair ''ada'') ada @ map (Pair ''bge'') bge
           @ map (Pair ''fine_tuned'') ft)) = {''ada'', ''bge'', ''fine_tuned''}"
    using labels_of_rows[OF assms(1), of "''ada''"] labels_of_rows[OF assms(2), of "''bge''"]
      labels_of_rows[OF assms(3), of "''fine_tuned''"]
    by (simp only: map_append set_append) auto
  then have "sort (remdups (map fst (map (Pair ''ada'') ada @ map (Pair ''bge'') bge
           @ map (Pair ''fine_tuned'') ft))) = sorted_list_of_set {''ada'', ''bge'', ''fine_tuned''}"
    by (simp only: sorted_list_of_set_sort_remdups[symmetric])
  also have "\<dots> = [''ada'', ''bge'', ''fine_tuned'']"
    by simp
  finally show ?thesis .
qed

lemma hit_rate_summary_full:
  assumes "ada \<noteq> []" "bge \<noteq> []" "ft \<noteq> []"
  shows "hit_rate_summary ada bge ft =
     Inr [(''ada'', Some (series_mean (map is_hit ada))),
          (''bge'', Some (series_mean (map is_hit bge))),
          (''fine_tuned'', Some (series_mean (map is_hit ft)))]"
proof -
  let ?rows = "map (Pair ''ada'') ada @ map (Pair ''bge'') bge @ map (Pair ''fine_tuned'') ft"
  have d: "df_all ada bge ft = Inr \<lparr>frame_rows = ?rows, is_hit_dtype = BoolDtype\<rparr>"
    using assms by (simp add: df_all_def pd_concat_def set_model_def concat_dtype_def)
  have g: "groupby_model_mean \<lparr>frame_rows = ?rows, is_hit_dtype = BoolDtype\<rparr> =
      map (\<lambda>l. (l, Some (series_mean
             (map (is_hit \<circ> snd) (filter (\<lambda>row. fst row = l) ?rows)))))
        [''ada'', ''bge'', ''fine_tuned'']"
    unfolding groupby_model_mean_def
    by (simp only: labelled_frame.select_convs df_all_labels[OF assms] if_True refl simp_thms)
  show ?thesis
    by (simp add: hit_rate_summary_def d g filter_label_rows comp_def)
qed


lemma hit_rate_summary_scalar_needs_all:
  assumes "hit_rate_summary ada bge ft = Inr tbl" and "(l, Some x) \<in> set tbl"
  shows "ada \<noteq> [] \<and> bge \<noteq> [] \<and> ft \<noteq> []"
proof (rule ccontr)
  assume "\<not> ?thesis"
  then have e: "ada = [] \<or> bge = [] \<or> ft = []" by simp
  obtain df where d: "df_all ada bge ft = Inr df" and n: "is_hit_dtype df \<noteq> BoolDtype"
    using e by (auto simp: df_all_def pd_concat_def set_model_def concat_dtype_def)
  from assms(1) d have "tbl = groupby_model_mean df" by (simp add: hit_rate_summary_def)
  with n assms(2) show False by (auto simp: groupby_model_mean_def)
qed



subsection \<open>The retrieval model\<close>

lemma node_id_nodes_of: "map node_id (nodes_of c) = map fst c"
  by (simp add: nodes_of_def case_prod_unfold comp_def)

lemma set_ranking: "set (ranking sim emb nodes q) = set nodes"
  by (simp add: ranking_def)

lemma length_ranking: "length (ranking sim emb nodes q) = length nodes"
  by (simp add: ranking_def)

lemma nearest_k_ids_in_corpus:
  "set (map node_id (nearest_k sim emb (nodes_of c) k q)) \<subseteq> fst ` set c"
proof -
  have "set (nearest_k sim emb (nodes_of c) k q) \<subseteq> set (nodes_of c)"
    using set_take_subset[of k "ranking sim emb (nodes_of c) q"]
    by (simp add: nearest_k_def set_ranking)
  then have "node_id ` set (nearest_k sim emb (nodes_of c) k q) \<subseteq> node_id ` set (nodes_of c)"
    by blast
  also have "node_id ` set (nodes_of c) = set (map node_id (nodes_of c))" by simp
  also have "\<dots> = fst ` set c" by (simp only: node_id_nodes_of set_map)
  finally show ?thesis by simp
qed

lemma length_nearest_k:
  "length (nearest_k sim emb (nodes_of c) k q) = min k (length c)"
  by (simp add: nearest_k_def length_ranking nodes_of_def min.commute)

lemma nearest_k_mono:
  "k1 \<le> k2 \<Longrightarrow> set (nearest_k sim emb nodes k1 q) \<subseteq> set (nearest_k sim emb nodes k2 q)"
  by (simp add: nearest_k_def set_take_subset_set_take)

lemma filter_length_mono:
  "(\<And>x. x \<in> set xs \<Longrightarrow> P x \<Longrightarrow> Q x) \<Longrightarrow> length (filter P xs) \<le> length (filter Q xs)"
proof (induction xs)
  case Nil
  then show ?case by simp
next
  case (Cons a xs)
  then have "length (filter P xs) \<le> length (filter Q xs)" by simp
  with Cons.prems[of a] show ?case by auto
qed

subsection \<open>Documents of the training pairs\<close>

lemma has_doc_iff:
  "has_doc corp rel k \<longleftrightarrow>
     (\<exists>d rest txt. map_of rel k = Some (d # rest) \<and> map_of corp d = Some txt)"
  by (auto simp: has_doc_def split: option.splits list.splits)

lemma has_doc_texts:
  "has_doc corp rel k \<Longrightarrow>
     \<exists>d rest. map_of rel k = Some (d # rest) \<and> map_of corp d = Some (doc_text corp rel k)"
  by (auto simp: has_doc_def doc_text_def truth_def split: option.splits list.splits)

subsection \<open>Concrete runs\<close>

lemma pets_run_top1:
  "evaluate (nearest_k toy_sim) pets_ds toy_emb 1 False =
     Inr [\<lparr>is_hit = True, retrieved = [''d1''], expected = ''d1'', query = ''q1''\<rparr>,
          \<lparr>is_hit = True, retrieved = [''d2''], expected = ''d2'', query = ''q2''\<rparr>]"
  by (simp add: evaluate_def nearest_k_def ranking_def nodes_of_def pets_ds_def toy_sim_def
      toy_emb_def getitem_def index0_def Let_def)

lemma pets_has_truth: "\<forall>x\<in>set (queries pets_ds). has_truth (relevant_docs pets_ds) (fst x)"
  by (simp add: pets_ds_def has_truth_def)

lemma pets_run_top5:
  "evaluate (nearest_k toy_sim) pets_ds toy_emb 5 False =
     Inr [\<lparr>is_hit = True, retrieved = [''d1'', ''d2''], expected = ''d1'', query = ''q1''\<rparr>,
          \<lparr>is_hit = True, retrieved = [''d2'', ''d1''], expected = ''d2'', query = ''q2''\<rparr>]"
  by (simp add: evaluate_def nearest_k_def ranking_def nodes_of_def pets_ds_def toy_sim_def
      toy_emb_def getitem_def index0_def Let_def)

lemma cross_run_top1:
  "evaluate (nearest_k toy_sim) cross_ds toy_emb 1 False =
     Inr [\<lparr>is_hit = False, retrieved = [''d1''], expected = ''d2'', query = ''q1''\<rparr>,
          \<lparr>is_hit = True, retrieved = [''d2''], expected = ''d2'', query = ''q2''\<rparr>]"
  by (simp add: cross_ds_def evaluate_def nearest_k_def ranking_def nodes_of_def pets_ds_def
      toy_sim_def toy_emb_def getitem_def index0_def Let_def)

lemma cross_run_top2:
  "evaluate (nearest_k toy_sim) cross_ds toy_emb 2 False =
     Inr [\<lparr>is_hit = True, retrieved = [''d1'', ''d2''], expected = ''d2'', query = ''q1''\<rparr>,
          \<lparr>is_hit = True, retrieved = [''d2'', ''d1''], expected = ''d2'', query = ''q2''\<rparr>]"
  by (simp add: cross_ds_def evaluate_def nearest_k_def ranking_def nodes_of_def pets_ds_def
      toy_sim_def toy_emb_def getitem_def index0_def Let_def)

lemma stray_run:
  "evaluate (nearest_k toy_sim) stray_ds toy_emb 5 False =
     Inr [\<lparr>is_hit = True, retrieved = [''d1'', ''d2''], expected = ''d1'', query = ''q1''\<rparr>,
          \<lparr>is_hit = False, retrieved = [''d2'', ''d1''], expected = ''d3'', query = ''q2''\<rparr>]"
  by (simp add: stray_ds_def evaluate_def nearest_k_def ranking_def nodes_of_def pets_ds_def
      toy_sim_def toy_emb_def getitem_def index0_def Let_def)

lemma stray_has_truth:
  "\<forall>x\<in>set (queries stray_ds). has_truth (relevant_docs stray_ds) (fst x)"
  by (simp add: stray_ds_def pets_ds_def has_truth_def)

lemma pets_has_doc:
  "\<forall>x\<in>set (queries pets_ds). has_doc (corpus pets_ds) (relevant_docs pets_ds) (fst x)"
  by (simp add: pets_ds_def has_doc_def)

lemma multi_has_truth:
  "\<forall>x\<in>set (queries multi_ds). has_truth (relevant_docs multi_ds) (fst x)"
  by (simp add: multi_ds_def pets_ds_def has_truth_def)

lemma multi_run_top1:
  "evaluate (nearest_k toy_sim) multi_ds toy_emb 1 False =
     Inr [\<lparr>is_hit = False, retrieved = [''d1''], expected = ''d2'', query = ''q1''\<rparr>,
          \<lparr>is_hit = True, retrieved = [''d2''], expected = ''d2'', query = ''q2''\<rparr>]"
  by (simp add: multi_ds_def evaluate_def nearest_k_def ranking_def nodes_of_def pets_ds_def
      toy_sim_def toy_emb_def getitem_def index0_def Let_def)

section \<open>The hit flag\<close>

text \<open>
  Claim C1. When every query has a ground truth (a non-empty \<open>relevant_docs\<close> entry, the
  condition under which no lookup raises), \<open>evaluate\<close> returns one record per query, and
  the record at position \<open>i\<close> belongs to the \<open>i\<close>-th query: with \<open>d # rest\<close> the query's
  \<open>relevant_docs\<close> sequence, the record's \<open>expected\<close> is \<open>d\<close>, its \<open>retrieved\<close> is what
  the retriever returned for the query text, and its hit flag is true exactly when \<open>d\<close>
  occurs in \<open>retrieved\<close>. Only the first element is read: the run on the dataset with
  every \<open>relevant_docs\<close> sequence cut down to its first element returns the same records,
  and for any dataset at all, the two runs have the same outcome. This holds for any
  retrieval library.
\<close>

theorem evaluate_hit_iff_first_relevant:
  assumes "\<forall>x\<in>set (queries ds). has_truth (relevant_docs ds) (fst x)"
  shows "\<exists>rs. evaluate lib ds em k v = Inr rs
           \<and> length rs = length (queries ds)
           \<and> (\<forall>i<length (queries ds). \<exists>d rest.
                 map_of (relevant_docs ds) (fst (queries ds ! i)) = Some (d # rest)
                 \<and> query (rs ! i) = fst (queries ds ! i)
                 \<and> expected (rs ! i) = d
                 \<and> retrieved (rs ! i) =
                     map node_id (lib em (nodes_of (corpus ds)) k (snd (queries ds ! i)))
                 \<and> (is_hit (rs ! i) \<longleftrightarrow> d \<in> set (retrieved (rs ! i))))
           \<and> evaluate lib (ds\<lparr>relevant_docs := first_only (relevant_docs ds)\<rparr>) em k v = Inr rs
           \<and> (\<forall>ds'. evaluate lib (ds'\<lparr>relevant_docs := first_only (relevant_docs ds')\<rparr>) em k v
                   = evaluate lib ds' em k v)"
proof -
  let ?rel = "relevant_docs ds"
  let ?R = "lib em (nodes_of (corpus ds)) k"
  from evaluate_succeeds[OF assms, of lib em k v] obtain rs where
    rs: "evaluate lib ds em k v = Inr rs" by blast
  note c = evaluate_closed_form[OF rs]
  have len: "length rs = length (queries ds)" using c by simp
  have inv: "evaluate lib (ds'\<lparr>relevant_docs := first_only (relevant_docs ds')\<rparr>) em k v
      = evaluate lib ds' em k v" for ds'
    by (simp add: evaluate_def eval_loop_first_only)
  have pt: "\<exists>d rest. map_of ?rel (fst (queries ds ! i)) = Some (d # rest)
                 \<and> query (rs ! i) = fst (queries ds ! i)
                 \<and> expected (rs ! i) = d
                 \<and> retrieved (rs ! i) = map node_id (?R (snd (queries ds ! i)))
                 \<and> (is_hit (rs ! i) \<longleftrightarrow> d \<in> set (retrieved (rs ! i)))"
    if i: "i < length (queries ds)" for i
  proof -
    obtain qid q where qi: "queries ds ! i = (qid, q)" by (cases "queries ds ! i")
    from assms i qi have "has_truth ?rel qid" by (metis fst_conv nth_mem)
    then obtain d rest where d: "map_of ?rel qid = Some (d # rest)"
      using has_truth_iff by blast
    then have t: "truth ?rel qid = d" by (simp add: truth_def)
    from c i qi t
    have "rs ! i = \<lparr>is_hit = d \<in> set (map node_id (?R q)), retrieved = map node_id (?R q),
                     expected = d, query = qid\<rparr>"
      by simp
    with d qi show ?thesis by simp
  qed
  from rs len pt inv[of ds] inv show ?thesis by simp
qed

text \<open>
  Both queries of this dataset list \<open>d2\<close> and then \<open>d1\<close>. With one retrieved document,
  \<open>q1\<close> retrieves \<open>d1\<close> and is a miss: only \<open>d2\<close> counts.
\<close>

theorem evaluate_hit_iff_first_relevant_witness:
  "evaluate (nearest_k toy_sim) multi_ds toy_emb 1 False =
     Inr [\<lparr>is_hit = False, retrieved = [''d1''], expected = ''d2'', query = ''q1''\<rparr>,
          \<lparr>is_hit = True, retrieved = [''d2''], expected = ''d2'', query = ''q2''\<rparr>]
   \<and> evaluate (nearest_k toy_sim)
        (multi_ds\<lparr>relevant_docs := first_only (relevant_docs multi_ds)\<rparr>) toy_emb 1 False =
     Inr [\<lparr>is_hit = False, retrieved = [''d1''], expected = ''d2'', query = ''q1''\<rparr>,
          \<lparr>is_hit = True, retrieved = [''d2''], expected = ''d2'', query = ''q2''\<rparr>]
   \<and> map_of (relevant_docs multi_ds) ''q1'' = Some [''d2'', ''d1'']"
proof -
  from evaluate_hit_iff_first_relevant[OF multi_has_truth, of "nearest_k toy_sim" toy_emb 1 False]
  obtain rs where r: "evaluate (nearest_k toy_sim) multi_ds toy_emb 1 False = Inr rs"
    and f: "evaluate (nearest_k toy_sim)
        (multi_ds\<lparr>relevant_docs := first_only (relevant_docs multi_ds)\<rparr>) toy_emb 1 False = Inr rs"
    by blast
  have m: "map_of (relevant_docs multi_ds) ''q1'' = Some [''d2'', ''d1'']"
    by (simp add: multi_ds_def pets_ds_def)
  from r f m multi_run_top1 show ?thesis by simp
qed

section \<open>One record per query\<close>

text \<open>
  Claim C2. When every query has a ground truth, \<open>evaluate\<close> returns, and it returns one
  record per query in the iteration order of the queries mapping: the \<open>query\<close> fields of
  the records, read in order, are the keys of the mapping in order. So there are as many
  records as queries (the size of the key set, since the keys of a dict are distinct),
  and every record's \<open>query\<close> is a key of the mapping.
\<close>

theorem evaluate_one_record_per_query:
  assumes "\<forall>x\<in>set (queries ds). has_truth (relevant_docs ds) (fst x)"
  shows "\<exists>rs. evaluate lib ds em k v = Inr rs
           \<and> length rs = length (queries ds)
           \<and> map query rs = map fst (queries ds)
           \<and> (\<forall>r\<in>set rs. query r \<in> fst ` set (queries ds))
           \<and> (distinct (map fst (queries ds)) \<longrightarrow> length rs = card (fst ` set (queries ds)))"
proof -
  from evaluate_succeeds[OF assms, of lib em k v] obtain rs where
    rs: "evaluate lib ds em k v = Inr rs"
    by blast
  from evaluate_closed_form[OF rs] have m: "map query rs = map fst (queries ds)"
    by (simp add: case_prod_unfold comp_def)
  then have l: "length rs = length (queries ds)"
    by (metis length_map)
  from m have s: "query ` set rs = fst ` set (queries ds)"
    by (metis set_map)
  have "distinct (map fst (queries ds)) \<longrightarrow> length rs = card (fst ` set (queries ds))"
    using l distinct_card[of "map fst (queries ds)"] by simp
  with rs m l s show ?thesis by blast
qed

theorem evaluate_one_record_per_query_witness:
  "\<exists>rs. evaluate (nearest_k toy_sim) pets_ds toy_emb 1 False = Inr rs
      \<and> length rs = 2 \<and> map query rs = [''q1'', ''q2'']"
  using evaluate_one_record_per_query[OF pets_has_truth, of "nearest_k toy_sim" toy_emb 1 False]
  by (auto simp: pets_ds_def)

section \<open>Missing ground truth\<close>

text \<open>
  Claim C4. If the identifier of some query is not a key of \<open>relevant_docs\<close>, then
  \<open>evaluate\<close> returns no records at all: it ends in an exception. When the loop reaches
  that query (every query before it has a ground truth), the exception is the
  \<open>KeyError\<close> for that query's identifier; the query is not skipped and no record is
  emitted for it.
\<close>

theorem evaluate_missing_ground_truth_fails:
  assumes "(qid, q) \<in> set (queries ds)" and "map_of (relevant_docs ds) qid = None"
  shows "(\<exists>e. evaluate lib ds em k v = Inl e)
         \<and> (\<forall>pre post. queries ds = pre @ (qid, q) # post
                \<and> (\<forall>x\<in>set pre. has_truth (relevant_docs ds) (fst x))
              \<longrightarrow> evaluate lib ds em k v = Inl (KeyError qid))"
proof -
  let ?rel = "relevant_docs ds"
  from assms(2) have nt: "\<not> has_truth ?rel qid" by (simp add: has_truth_def)
  have a: "\<exists>e. evaluate lib ds em k v = Inl e"
  proof (cases "evaluate lib ds em k v")
    case (Inl e)
    then show ?thesis by blast
  next
    case (Inr rs)
    then have "eval_loop (lib em (nodes_of (corpus ds)) k) ?rel (queries ds) [] = Inr rs"
      by (simp add: evaluate_def Let_def)
    from eval_loop_Inr_has_truth[OF this] assms(1) nt show ?thesis by auto
  qed
  have b: "evaluate lib ds em k v = Inl (KeyError qid)"
    if "queries ds = pre @ (qid, q) # post" and "\<forall>x\<in>set pre. has_truth ?rel (fst x)"
    for pre post
    using eval_loop_stops[OF that(2) nt, of "lib em (nodes_of (corpus ds)) k" q post "[]"]
      that(1) assms(2)
    by (simp add: evaluate_def Let_def)
  from a b show ?thesis by blast
qed

theorem evaluate_missing_ground_truth_fails_witness:
  "evaluate (nearest_k toy_sim) orphan_ds toy_emb 5 False = Inl (KeyError ''q2'')"
proof -
  have h1: "(''q2'', ''stock markets'') \<in> set (queries orphan_ds)"
    by (simp add: orphan_ds_def pets_ds_def)
  have h2: "map_of (relevant_docs orphan_ds) ''q2'' = None"
    by (simp add: orphan_ds_def pets_ds_def)
  have h3: "queries orphan_ds = [(''q1'', ''cat'')] @ (''q2'', ''stock markets'') # []"
    by (simp add: orphan_ds_def pets_ds_def)
  have h4: "\<forall>x\<in>set [(''q1'', ''cat'')]. has_truth (relevant_docs orphan_ds) (fst x)"
    by (simp add: orphan_ds_def pets_ds_def has_truth_def)
  from evaluate_missing_ground_truth_fails[OF h1 h2, of "nearest_k toy_sim" toy_emb 5 False]
    h3 h4
  show ?thesis by blast
qed

section \<open>Empty queries\<close>




section \<open>Aggregation\<close>

text \<open>
  Claim C3. For a non-empty sequence of result records the aggregated hit rate
  (\<open>pd.DataFrame(results)['is_hit'].mean()\<close>) is the number of records with hit flag true
  over the number of records, which is the mean of the per-record flags (each flag
  counted as 0 or 1). In the summary table, where the frames of the three providers are
  labelled, concatenated and grouped by label: when every provider has records, the
  table has one row per label, in sorted label order, and the scalar of a label is the
  hit rate of that label's records alone; and whatever the three frames are, a scalar
  that the table reports for a label is the hit rate of that label's records alone.
  Numbers are exact rationals here.
\<close>

theorem hit_rate_is_count_over_total:
  assumes "rs \<noteq> []"
  shows "hit_rate rs = Inr (Num (hit_ratio_spec rs))
         \<and> hit_ratio_spec rs = sum_list (map (of_bool \<circ> is_hit) rs) / of_nat (length rs)
         \<and> (\<forall>bge ft. bge \<noteq> [] \<and> ft \<noteq> [] \<longrightarrow>
                hit_rate_summary rs bge ft =
                  Inr [(''ada'', Some (Num (hit_ratio_spec rs))),
                       (''bge'', Some (Num (hit_ratio_spec bge))),
                       (''fine_tuned'', Some (Num (hit_ratio_spec ft)))]
                \<and> hit_rate bge = Inr (Num (hit_ratio_spec bge))
                \<and> hit_rate ft = Inr (Num (hit_ratio_spec ft)))
         \<and> (\<forall>ada bge ft tbl l x.
                hit_rate_summary ada bge ft = Inr tbl \<and> (l, Some x) \<in> set tbl \<longrightarrow>
                  (l = ''ada'' \<and> hit_rate ada = Inr x)
                  \<or> (l = ''bge'' \<and> hit_rate bge = Inr x)
                  \<or> (l = ''fine_tuned'' \<and> hit_rate ft = Inr x))"
proof -
  have hr: "hit_rate xs = Inr (Num (hit_ratio_spec xs))" if "xs \<noteq> []" for xs
    using hit_rate_nonempty[OF that] series_mean_is_hit[OF that] by simp
  have b: "hit_ratio_spec rs = sum_list (map (of_bool \<circ> is_hit) rs) / of_nat (length rs)"
    by (simp add: hit_ratio_spec_def sum_of_bool_filter)
  have full: "hit_rate_summary ada bge ft =
                  Inr [(''ada'', Some (Num (hit_ratio_spec ada))),
                       (''bge'', Some (Num (hit_ratio_spec bge))),
                       (''fine_tuned'', Some (Num (hit_ratio_spec ft)))]"
    if "ada \<noteq> []" "bge \<noteq> []" "ft \<noteq> []" for ada bge ft
    using hit_rate_summary_full[OF that] series_mean_is_hit[OF that(1)]
      series_mean_is_hit[OF that(2)] series_mean_is_hit[OF that(3)]
    by simp
  have c: "hit_rate_summary rs bge ft =
                  Inr [(''ada'', Some (Num (hit_ratio_spec rs))),
                       (''bge'', Some (Num (hit_ratio_spec bge))),
                       (''fine_tuned'', Some (Num (hit_ratio_spec ft)))]
                \<and> hit_rate bge = Inr (Num (hit_ratio_spec bge))
                \<and> hit_rate ft = Inr (Num (hit_ratio_spec ft))"
    if "bge \<noteq> [] \<and> ft \<noteq> []" for bge ft
    using full[OF assms, of bge ft] hr[of bge] hr[of ft] that by simp
  have d: "(l = ''ada'' \<and> hit_rate ada = Inr x)
                  \<or> (l = ''bge'' \<and> hit_rate bge = Inr x)
                  \<or> (l = ''fine_tuned'' \<and> hit_rate ft = Inr x)"
    if t: "hit_rate_summary ada bge ft = Inr tbl \<and> (l, Some x) \<in> set tbl"
    for ada bge ft tbl l x
  proof -
    from t have ne: "ada \<noteq> []" "bge \<noteq> []" "ft \<noteq> []"
      using hit_rate_summary_scalar_needs_all[of ada bge ft tbl l x] by simp_all
    from t full[OF ne] have "(l, Some x) \<in> set [(''ada'', Some (Num (hit_ratio_spec ada))),
                       (''bge'', Some (Num (hit_ratio_spec bge))),
                       (''fine_tuned'', Some (Num (hit_ratio_spec ft)))]"
      by simp
    with hr[OF ne(1)] hr[OF ne(2)] hr[OF ne(3)] show ?thesis by auto
  qed
  from hr[OF assms] b c d show ?thesis by blast
qed

text \<open>
  One hit out of two records for \<open>ada\<close>, one hit for \<open>bge\<close>, one miss for \<open>fine_tuned\<close>.
\<close>

theorem hit_rate_is_count_over_total_witness:
  "hit_rate [hit_rec, miss_rec] = Inr (Num (1 / 2))
   \<and> hit_rate_summary [hit_rec, miss_rec] [hit_rec] [miss_rec] =
       Inr [(''ada'', Some (Num (1 / 2))), (''bge'', Some (Num 1)), (''fine_tuned'', Some (Num 0))]"
proof -
  have ne: "[hit_rec, miss_rec] \<noteq> []" by simp
  have h: "hit_ratio_spec [hit_rec, miss_rec] = 1 / 2" "hit_ratio_spec [hit_rec] = 1"
    "hit_ratio_spec [miss_rec] = 0"
    by (simp_all add: hit_ratio_spec_def hit_rec_def miss_rec_def)
  from hit_rate_is_count_over_total[OF ne] h show ?thesis by simp
qed

section \<open>Properties that rest on the retrieval model\<close>

text \<open>
  Claim C6. With the retrieval modelled as the first \<open>k\<close> entries of a ranking that does
  not depend on \<open>k\<close>: if \<open>k1 \<le> k2\<close> and the evaluation with \<open>top_k = k1\<close> returns, then
  the evaluation with \<open>top_k = k2\<close> returns as many records, every query that was a hit
  is still a hit, and (when there is at least one record, so that the hit rate exists)
  the hit rate with \<open>k2\<close> is at least the hit rate with \<open>k1\<close>. \<open>top_k\<close> is a count, a
  natural number.
\<close>

theorem hit_rate_monotone_in_top_k:
  assumes "k1 \<le> k2" and "evaluate (nearest_k sim) ds emb k1 v = Inr rs1"
  shows "\<exists>rs2. evaluate (nearest_k sim) ds emb k2 v = Inr rs2
           \<and> length rs2 = length rs1
           \<and> (\<forall>i<length rs1. is_hit (rs1 ! i) \<longrightarrow> is_hit (rs2 ! i))
           \<and> (rs1 \<noteq> [] \<longrightarrow>
                (\<exists>h1 h2. hit_rate rs1 = Inr (Num h1) \<and> hit_rate rs2 = Inr (Num h2) \<and> h1 \<le> h2))"
proof -
  let ?rel = "relevant_docs ds"
  let ?R = "\<lambda>k. nearest_k sim emb (nodes_of (corpus ds)) k"
  let ?mk = "\<lambda>k. (\<lambda>(qid, q). \<lparr>is_hit = truth ?rel qid \<in> set (map node_id (?R k q)),
       retrieved = map node_id (?R k q), expected = truth ?rel qid, query = qid\<rparr>)"
  from assms(2) have "eval_loop (?R k1) ?rel (queries ds) [] = Inr rs1"
    by (simp add: evaluate_def Let_def)
  then have ht: "\<forall>x\<in>set (queries ds). has_truth ?rel (fst x)"
    by (rule eval_loop_Inr_has_truth)
  from evaluate_succeeds[OF ht, of "nearest_k sim" emb k2 v] obtain rs2 where
    rs2: "evaluate (nearest_k sim) ds emb k2 v = Inr rs2" by blast
  have c1: "rs1 = map (?mk k1) (queries ds)" by (rule evaluate_closed_form[OF assms(2)])
  have c2: "rs2 = map (?mk k2) (queries ds)" by (rule evaluate_closed_form[OF rs2])
  have len: "length rs2 = length rs1" using c1 c2 by simp
  have step: "is_hit (?mk k1 x) \<Longrightarrow> is_hit (?mk k2 x)" for x
    using nearest_k_mono[OF assms(1), of sim emb "nodes_of (corpus ds)" "snd x"]
    by (cases x) auto
  have pt: "\<forall>i<length rs1. is_hit (rs1 ! i) \<longrightarrow> is_hit (rs2 ! i)"
  proof (intro allI impI)
    fix i assume i: "i < length rs1" and h: "is_hit (rs1 ! i)"
    from i c1 have iq: "i < length (queries ds)" by simp
    from h c1 iq have "is_hit (?mk k1 (queries ds ! i))" by simp
    then have "is_hit (?mk k2 (queries ds ! i))" by (rule step)
    with c2 iq show "is_hit (rs2 ! i)" by simp
  qed
  have cnt: "length (filter is_hit rs1) \<le> length (filter is_hit rs2)"
  proof -
    have "length (filter (is_hit \<circ> ?mk k1) (queries ds)) \<le> length (filter (is_hit \<circ> ?mk k2) (queries ds))"
      by (rule filter_length_mono) (use step in simp)
    then show ?thesis by (simp only: c1 c2 filter_map length_map)
  qed
  have rate: "\<exists>h1 h2. hit_rate rs1 = Inr (Num h1) \<and> hit_rate rs2 = Inr (Num h2) \<and> h1 \<le> h2"
    if ne: "rs1 \<noteq> []"
  proof -
    from ne len have ne2: "rs2 \<noteq> []" by auto
    have r1: "hit_rate rs1 = Inr (Num (hit_ratio_spec rs1))"
      using ne series_mean_is_hit[OF ne] by (simp add: hit_rate_def column_is_hit_def)
    have r2: "hit_rate rs2 = Inr (Num (hit_ratio_spec rs2))"
      using ne2 series_mean_is_hit[OF ne2] by (simp add: hit_rate_def column_is_hit_def)
    have "hit_ratio_spec rs1 \<le> hit_ratio_spec rs2"
      using cnt len by (simp add: hit_ratio_spec_def divide_right_mono)
    with r1 r2 show ?thesis by blast
  qed
  from rs2 len pt rate show ?thesis by blast
qed

text \<open>Going from one to two retrieved documents turns the miss of \<open>q1\<close> into a hit.\<close>

theorem hit_rate_monotone_in_top_k_witness:
  "(\<exists>rs2. evaluate (nearest_k toy_sim) cross_ds toy_emb 2 False = Inr rs2 \<and> length rs2 = 2
      \<and> hit_rate rs2 = Inr (Num 1))
   \<and> hit_rate [\<lparr>is_hit = False, retrieved = [''d1''], expected = ''d2'', query = ''q1''\<rparr>,
               \<lparr>is_hit = True, retrieved = [''d2''], expected = ''d2'', query = ''q2''\<rparr>]
       = Inr (Num (1 / 2))"
proof -
  have le: "(1::nat) \<le> 2" by simp
  from hit_rate_monotone_in_top_k[OF le cross_run_top1] obtain rs2 where
    r: "evaluate (nearest_k toy_sim) cross_ds toy_emb 2 False = Inr rs2" and l: "length rs2 = 2"
    by auto
  from r cross_run_top2 have
    "rs2 = [\<lparr>is_hit = True, retrieved = [''d1'', ''d2''], expected = ''d2'', query = ''q1''\<rparr>,
            \<lparr>is_hit = True, retrieved = [''d2'', ''d1''], expected = ''d2'', query = ''q2''\<rparr>]"
    by simp
  then have "hit_rate rs2 = Inr (Num 1)"
    by (simp add: hit_rate_def column_is_hit_def series_mean_def)
  moreover have "hit_rate [\<lparr>is_hit = False, retrieved = [''d1''], expected = ''d2'', query = ''q1''\<rparr>,
               \<lparr>is_hit = True, retrieved = [''d2''], expected = ''d2'', query = ''q2''\<rparr>]
       = Inr (Num (1 / 2))"
    by (simp add: hit_rate_def column_is_hit_def series_mean_def)
  ultimately show ?thesis using r l by simp
qed

text \<open>
  Claim C7. With the retrieval modelled as a selection of index nodes: when every query
  has a ground truth, \<open>evaluate\<close> returns whether or not the ground truths are corpus
  identifiers; every retrieved identifier is a corpus identifier; and a record whose
  ground truth is not a corpus identifier has hit flag false.
\<close>

theorem absent_ground_truth_is_a_miss:
  assumes "\<forall>x\<in>set (queries ds). has_truth (relevant_docs ds) (fst x)"
  shows "\<exists>rs. evaluate (nearest_k sim) ds emb k v = Inr rs
           \<and> length rs = length (queries ds)
           \<and> (\<forall>r\<in>set rs. set (retrieved r) \<subseteq> fst ` set (corpus ds))
           \<and> (\<forall>i<length (queries ds).
                 expected (rs ! i) = truth (relevant_docs ds) (fst (queries ds ! i))
                 \<and> (expected (rs ! i) \<notin> fst ` set (corpus ds) \<longrightarrow> \<not> is_hit (rs ! i)))"
proof -
  let ?rel = "relevant_docs ds"
  let ?R = "nearest_k sim emb (nodes_of (corpus ds)) k"
  let ?mk = "\<lambda>(qid, q). \<lparr>is_hit = truth ?rel qid \<in> set (map node_id (?R q)),
       retrieved = map node_id (?R q), expected = truth ?rel qid, query = qid\<rparr>"
  from evaluate_succeeds[OF assms, of "nearest_k sim" emb k v] obtain rs where
    rs: "evaluate (nearest_k sim) ds emb k v = Inr rs" by blast
  have c: "rs = map ?mk (queries ds)" by (rule evaluate_closed_form[OF rs])
  have sub: "set (retrieved (?mk x)) \<subseteq> fst ` set (corpus ds)" for x
    using nearest_k_ids_in_corpus[of sim emb "corpus ds" k "snd x"] by (cases x) simp
  have miss: "expected (?mk x) = truth ?rel (fst x)
      \<and> (expected (?mk x) \<notin> fst ` set (corpus ds) \<longrightarrow> \<not> is_hit (?mk x))" for x
    using nearest_k_ids_in_corpus[of sim emb "corpus ds" k "snd x"] by (cases x) auto
  have a: "\<forall>r\<in>set rs. set (retrieved r) \<subseteq> fst ` set (corpus ds)"
    using sub c by auto
  have b: "\<forall>i<length (queries ds).
                 expected (rs ! i) = truth (relevant_docs ds) (fst (queries ds ! i))
                 \<and> (expected (rs ! i) \<notin> fst ` set (corpus ds) \<longrightarrow> \<not> is_hit (rs ! i))"
    using miss c by simp
  from rs c a b show ?thesis by simp
qed

text \<open>The ground truth \<open>d3\<close> of \<open>q2\<close> is not in the corpus: the run returns and \<open>q2\<close> is a miss.\<close>

theorem absent_ground_truth_is_a_miss_witness:
  "\<exists>rs. evaluate (nearest_k toy_sim) stray_ds toy_emb 5 False = Inr rs
      \<and> length rs = 2 \<and> expected (rs ! 1) = ''d3'' \<and> \<not> is_hit (rs ! 1)"
proof -
  from absent_ground_truth_is_a_miss[OF stray_has_truth, of toy_sim toy_emb 5 False]
  obtain rs where r: "evaluate (nearest_k toy_sim) stray_ds toy_emb 5 False = Inr rs"
    and l: "length rs = length (queries stray_ds)"
    and m: "\<forall>i<length (queries stray_ds).
              expected (rs ! i) = truth (relevant_docs stray_ds) (fst (queries stray_ds ! i))
              \<and> (expected (rs ! i) \<notin> fst ` set (corpus stray_ds) \<longrightarrow> \<not> is_hit (rs ! i))"
    by blast
  have q: "length (queries stray_ds) = 2" by (simp add: stray_ds_def pets_ds_def)
  have t: "truth (relevant_docs stray_ds) (fst (queries stray_ds ! 1)) = ''d3''"
    by (simp add: stray_ds_def pets_ds_def truth_def)
  have c: "''d3'' \<notin> fst ` set (corpus stray_ds)" by (simp add: stray_ds_def pets_ds_def)
  from m q have "expected (rs ! 1) = truth (relevant_docs stray_ds) (fst (queries stray_ds ! 1))
      \<and> (expected (rs ! 1) \<notin> fst ` set (corpus stray_ds) \<longrightarrow> \<not> is_hit (rs ! 1))"
    by simp
  with t c have "expected (rs ! 1) = ''d3'' \<and> \<not> is_hit (rs ! 1)" by simp
  with r l q show ?thesis by simp
qed

text \<open>
  Claim C9, as stated, fails: with the default \<open>top_k = 5\<close> and a corpus of two documents
  only two identifiers can be retrieved.
\<close>

theorem retrieved_length_counterexample:
  "evaluate_default (nearest_k toy_sim) pets_ds toy_emb =
     Inr [\<lparr>is_hit = True, retrieved = [''d1'', ''d2''], expected = ''d1'', query = ''q1''\<rparr>,
          \<lparr>is_hit = True, retrieved = [''d2'', ''d1''], expected = ''d2'', query = ''q2''\<rparr>]
   \<and> length (retrieved
         \<lparr>is_hit = True, retrieved = [''d1'', ''d2''], expected = ''d1'', query = ''q1''\<rparr>) \<noteq> 5"
  by (simp add: evaluate_default_def pets_run_top5)

text \<open>
  Claim C9, amended. With the retrieval modelled as the \<open>k\<close> nearest corpus documents, the
  retrieved sequence of every record has length \<open>min top_k (number of corpus documents)\<close>;
  it has length exactly \<open>top_k\<close> whenever the corpus has at least \<open>top_k\<close> documents.
\<close>

theorem retrieved_length_is_min:
  assumes "evaluate (nearest_k sim) ds emb k v = Inr rs"
  shows "(\<forall>r\<in>set rs. length (retrieved r) = min k (length (corpus ds)))
         \<and> (k \<le> length (corpus ds) \<longrightarrow> (\<forall>r\<in>set rs. length (retrieved r) = k))"
proof -
  have "\<forall>r\<in>set rs. length (retrieved r) = min k (length (corpus ds))"
    using evaluate_closed_form[OF assms] by (auto simp: length_nearest_k)
  then show ?thesis by auto
qed

theorem retrieved_length_is_min_witness:
  "length (retrieved
      \<lparr>is_hit = True, retrieved = [''d1'', ''d2''], expected = ''d1'', query = ''q1''\<rparr>) = 2
   \<and> min 5 (length (corpus pets_ds)) = 2"
  using retrieved_length_is_min[OF pets_run_top5] by (simp add: pets_ds_def)

section \<open>Training pairs\<close>

text \<open>
  Claim C8. When the first relevant identifier of every query names a corpus document,
  the cell ends without an exception and \<open>examples\<close> holds one pair per query, in the
  iteration order of the queries mapping: the \<open>i\<close>-th pair is the text of the \<open>i\<close>-th
  query followed by the corpus text stored under the first identifier of that query's
  \<open>relevant_docs\<close> sequence. Identifiers after the first are ignored: cutting every
  sequence down to its first element gives the same pairs.
\<close>

theorem build_examples_one_pair_per_query:
  assumes "\<forall>x\<in>set (queries ds). has_doc (corpus ds) (relevant_docs ds) (fst x)"
  shows "\<exists>exs. build_examples ds = (exs, None)
           \<and> length exs = length (queries ds)
           \<and> (\<forall>i<length (queries ds). \<exists>d rest txt.
                 map_of (relevant_docs ds) (fst (queries ds ! i)) = Some (d # rest)
                 \<and> map_of (corpus ds) d = Some txt
                 \<and> exs ! i = \<lparr>texts = [snd (queries ds ! i), txt]\<rparr>)
           \<and> build_examples (ds\<lparr>relevant_docs := first_only (relevant_docs ds)\<rparr>) = (exs, None)"
proof -
  let ?rel = "relevant_docs ds" and ?corp = "corpus ds"
  let ?exs = "map (\<lambda>(k, q). \<lparr>texts = [q, doc_text ?corp ?rel k]\<rparr>) (queries ds)"
  have b: "build_examples ds = (?exs, None)"
    using examples_loop_ok[OF assms, of "[]"] by (simp add: build_examples_def)
  have f: "build_examples (ds\<lparr>relevant_docs := first_only ?rel\<rparr>) = build_examples ds"
    by (simp add: build_examples_def examples_loop_first_only)
  have p: "\<exists>d rest txt. map_of ?rel (fst (queries ds ! i)) = Some (d # rest)
                 \<and> map_of ?corp d = Some txt
                 \<and> ?exs ! i = \<lparr>texts = [snd (queries ds ! i), txt]\<rparr>"
    if i: "i < length (queries ds)" for i
  proof -
    from i assms have "has_doc ?corp ?rel (fst (queries ds ! i))" by simp
    from has_doc_texts[OF this] obtain d rest where
      "map_of ?rel (fst (queries ds ! i)) = Some (d # rest)"
      "map_of ?corp d = Some (doc_text ?corp ?rel (fst (queries ds ! i)))"
      by blast
    moreover have "?exs ! i = \<lparr>texts = [snd (queries ds ! i),
        doc_text ?corp ?rel (fst (queries ds ! i))]\<rparr>"
      using i by (simp add: case_prod_unfold)
    ultimately show ?thesis by blast
  qed
  from b f p show ?thesis by simp
qed

theorem build_examples_one_pair_per_query_witness:
  "build_examples pets_ds =
     ([\<lparr>texts = [''cat'', ''cats'']\<rparr>, \<lparr>texts = [''stock markets'', ''stock market'']\<rparr>], None)
   \<and> build_examples (pets_ds\<lparr>relevant_docs := first_only (relevant_docs pets_ds)\<rparr>) =
     ([\<lparr>texts = [''cat'', ''cats'']\<rparr>, \<lparr>texts = [''stock markets'', ''stock market'']\<rparr>], None)"
proof -
  from build_examples_one_pair_per_query[OF pets_has_doc] obtain exs where
    e: "build_examples pets_ds = (exs, None)"
    and f: "build_examples (pets_ds\<lparr>relevant_docs := first_only (relevant_docs pets_ds)\<rparr>) = (exs, None)"
    by blast
  have "build_examples pets_ds =
     ([\<lparr>texts = [''cat'', ''cats'']\<rparr>, \<lparr>texts = [''stock markets'', ''stock market'']\<rparr>], None)"
    by (simp add: build_examples_def pets_ds_def getitem_def index0_def)
  with e f show ?thesis by simp
qed

text \<open>
  Claim C10. If the first relevant identifier of some query is not a key of the corpus,
  the cell ends in an exception and \<open>examples\<close> holds fewer pairs than there are queries.
  When the loop reaches that query (every query before it has its document), the
  exception is the \<open>KeyError\<close> for the missing document identifier and \<open>examples\<close> holds
  the pairs of the queries before it and nothing else. The hit-rate evaluator, by
  contrast, still returns on such a dataset as long as every query has a ground truth.
\<close>

theorem build_examples_missing_document_fails:
  assumes "(qid, q) \<in> set (queries ds)"
    and "map_of (relevant_docs ds) qid = Some (d # rest)"
    and "map_of (corpus ds) d = None"
  shows "(\<exists>e. snd (build_examples ds) = Some e)
         \<and> length (fst (build_examples ds)) < length (queries ds)
         \<and> (\<forall>pre post. queries ds = pre @ (qid, q) # post
                \<and> (\<forall>x\<in>set pre. has_doc (corpus ds) (relevant_docs ds) (fst x))
              \<longrightarrow> build_examples ds =
                    (map (\<lambda>(k, q). \<lparr>texts = [q, doc_text (corpus ds) (relevant_docs ds) k]\<rparr>) pre,
                     Some (KeyError d)))
         \<and> ((\<forall>x\<in>set (queries ds). has_truth (relevant_docs ds) (fst x))
              \<longrightarrow> (\<exists>rs. evaluate lib ds em k v = Inr rs))"
proof -
  let ?rel = "relevant_docs ds" and ?corp = "corpus ds"
  let ?pair = "\<lambda>(k, q). \<lparr>texts = [q, doc_text ?corp ?rel k]\<rparr>"
  from assms(2,3) have nd: "\<not> has_doc ?corp ?rel qid" by (simp add: has_doc_def)
  with assms(1) have "\<exists>x\<in>set (queries ds). \<not> has_doc ?corp ?rel (fst x)" by force
  from first_failure[OF this] obtain pre x post where
    qs: "queries ds = pre @ x # post" and pre: "\<forall>y\<in>set pre. has_doc ?corp ?rel (fst y)"
    and x: "\<not> has_doc ?corp ?rel (fst x)"
    by blast
  obtain k' q' where xk: "x = (k', q')" by (cases x)
  from examples_loop_stops[OF pre, of k' q' post "[]"] x xk qs
  have "\<exists>e. build_examples ds = (map ?pair pre, Some e)"
    by (simp add: build_examples_def)
  then have a: "(\<exists>e. snd (build_examples ds) = Some e)
         \<and> length (fst (build_examples ds)) < length (queries ds)"
    using qs by auto
  have b: "build_examples ds = (map ?pair pre', Some (KeyError d))"
    if "queries ds = pre' @ (qid, q) # post'" and "\<forall>x\<in>set pre'. has_doc ?corp ?rel (fst x)"
    for pre' post'
    using examples_loop_stops[OF that(2) nd, of q post' "[]"] that(1) assms(2)
    by (simp add: build_examples_def)
  have c: "\<exists>rs. evaluate lib ds em k v = Inr rs"
    if "\<forall>x\<in>set (queries ds). has_truth ?rel (fst x)"
    using evaluate_succeeds[OF that, of lib em k v] .
  from a b c show ?thesis by blast
qed

theorem build_examples_missing_document_fails_witness:
  "build_examples stray_ds = ([\<lparr>texts = [''cat'', ''cats'']\<rparr>], Some (KeyError ''d3''))
   \<and> (\<exists>rs. evaluate (nearest_k toy_sim) stray_ds toy_emb 5 False = Inr rs)"
proof -
  have h1: "(''q2'', ''stock markets'') \<in> set (queries stray_ds)"
    by (simp add: stray_ds_def pets_ds_def)
  have h2: "map_of (relevant_docs stray_ds) ''q2'' = Some (''d3'' # [])"
    by (simp add: stray_ds_def pets_ds_def)
  have h3: "map_of (corpus stray_ds) ''d3'' = None"
    by (simp add: stray_ds_def pets_ds_def)
  have h4: "queries stray_ds = [(''q1'', ''cat'')] @ (''q2'', ''stock markets'') # []"
    by (simp add: stray_ds_def pets_ds_def)
  have h5: "\<forall>x\<in>set [(''q1'', ''cat'')]. has_doc (corpus stray_ds) (relevant_docs stray_ds) (fst x)"
    by (simp add: stray_ds_def pets_ds_def has_doc_def)
  have h6: "\<forall>x\<in>set (queries stray_ds). has_truth (relevant_docs stray_ds) (fst x)"
    by (simp add: stray_ds_def pets_ds_def has_truth_def)
  have t: "doc_text (corpus stray_ds) (relevant_docs stray_ds) ''q1'' = ''cats''"
    by (simp add: stray_ds_def pets_ds_def doc_text_def truth_def)
  from build_examples_missing_document_fails[OF h1 h2 h3, of "nearest_k toy_sim" toy_emb 5 False]
    h4 h5 h6
  have "build_examples stray_ds =
      (map (\<lambda>(k, q). \<lparr>texts = [q, doc_text (corpus stray_ds) (relevant_docs stray_ds) k]\<rparr>)
         [(''q1'', ''cat'')], Some (KeyError ''d3''))
     \<and> (\<exists>rs. evaluate (nearest_k toy_sim) stray_ds toy_emb 5 False = Inr rs)"
    by blast
  with t show ?thesis by simp
qed

end
